theory Spec2Isabelle
  imports Main "HOL-Library.Word" "HOL-Library.Multiset"
begin

unbundle bit_operations_syntax

section \<open>Bytes and strings\<close>

text \<open>
  File contents are Python \<open>bytes\<close>: lists of 8-bit words. Python \<open>str\<close> values
  (paths, names, extensions, messages) are lists of characters, a character being a
  code point below 256 (Latin-1). On these, \<open>str.lower\<close> maps the upper-case letters,
  the code points 65 to 90 and 192 to 222 without 215 (the multiplication sign), to the
  code point 32 above, and leaves every other character as it is.
\<close>

type_synonym byte = "8 word"

definition lower_char :: "char \<Rightarrow> char" where
  "lower_char c =
     (if (65 \<le> (of_char c :: nat) \<and> (of_char c :: nat) \<le> 90) \<or>
         (192 \<le> (of_char c :: nat) \<and> (of_char c :: nat) \<le> 222 \<and> (of_char c :: nat) \<noteq> 215)
      then char_of ((of_char c :: nat) + 32)
      else c)"

definition lower :: "string \<Rightarrow> string" where
  "lower s = map lower_char s"

text \<open>\<open>str(n)\<close> for a non-negative integer, as the f-strings print counts and sizes.\<close>

definition digit_char :: "nat \<Rightarrow> char" where
  "digit_char d = ''0123456789'' ! d"

function str_nat :: "nat \<Rightarrow> string" where
  "str_nat n = (if n < 10 then [digit_char n] else str_nat (n div 10) @ [digit_char (n mod 10)])"
  by pat_completeness auto
termination
  by (relation "measure id") auto

declare str_nat.simps [simp del]

text \<open>The format specification \<open>{file.name:40}\<close>: left-justified in a field of width 40.\<close>

definition ljust40 :: "string \<Rightarrow> string" where
  "ljust40 s = s @ replicate (40 - length s) (CHR '' '')"

text \<open>
  \<open>pathlib\<close>: \<open>name\<close> is the final path component, \<open>suffix\<close> the part of the name
  from its last dot on, provided the dot is neither the first nor the last character of
  the name (\<open>i = name.rfind('.')\<close>, \<open>0 < i < len(name) - 1\<close>).
\<close>

definition name_of :: "string \<Rightarrow> string" where
  "name_of p = rev (takeWhile (\<lambda>c. c \<noteq> CHR ''/'') (rev p))"

definition rfind_dot :: "string \<Rightarrow> nat option" where
  "rfind_dot s =
     (if CHR ''.'' \<in> set s
      then Some (length s - 1 - length (takeWhile (\<lambda>c. c \<noteq> CHR ''.'') (rev s)))
      else None)"

definition suffix_of :: "string \<Rightarrow> string" where
  "suffix_of nm =
     (case rfind_dot nm of
        None \<Rightarrow> []
      | Some i \<Rightarrow> if 0 < i \<and> i < length nm - 1 then drop i nm else [])"


section \<open>BLAKE2b (RFC 7693) and the \<open>hashlib.blake2b\<close> object\<close>

text \<open>
  The 64-bit words of the algorithm are natural numbers below \<open>2 ^ 64\<close>, with the
  reductions \<open>mod 2 ^ 64\<close> written where RFC 7693 writes them.
\<close>

definition IV :: "nat list" where
  "IV = [0x6a09e667f3bcc908, 0xbb67ae8584caa73b, 0x3c6ef372fe94f82b, 0xa54ff53a5f1d36f1,
         0x510e527fade682d1, 0x9b05688c2b3e6c1f, 0x1f83d9abfb41bd6b, 0x5be0cd19137e2179]"

definition sigma_perm :: "nat list list" where
  "sigma_perm =
   [[0, 1, 2, 3, 4, 5, 6, 7, 8, 9, 10, 11, 12, 13, 14, 15],
    [14, 10, 4, 8, 9, 15, 13, 6, 1, 12, 0, 2, 11, 7, 5, 3],
    [11, 8, 12, 0, 5, 2, 15, 13, 10, 14, 3, 6, 7, 1, 9, 4],
    [7, 9, 3, 1, 13, 12, 11, 14, 2, 6, 5, 10, 4, 0, 15, 8],
    [9, 0, 5, 7, 2, 4, 10, 15, 14, 1, 11, 12, 6, 8, 3, 13],
    [2, 12, 6, 10, 0, 11, 8, 3, 4, 13, 7, 5, 15, 14, 1, 9],
    [12, 5, 1, 15, 14, 13, 4, 10, 0, 7, 6, 3, 9, 2, 8, 11],
    [13, 11, 7, 14, 12, 1, 3, 9, 5, 0, 15, 4, 8, 6, 2, 10],
    [6, 15, 14, 9, 11, 3, 0, 8, 12, 2, 13, 7, 1, 4, 10, 5],
    [10, 2, 8, 4, 7, 6, 1, 5, 15, 11, 9, 14, 3, 12, 13, 0]]"

text \<open>Rotation of a 64-bit word to the right by \<open>n\<close> bits.\<close>

definition rotr64 :: "nat \<Rightarrow> nat \<Rightarrow> nat" where
  "rotr64 n w = w div 2 ^ n + (w mod 2 ^ n) * 2 ^ (64 - n)"

text \<open>
  The mixing function \<open>G\<close> is eight assignments to the work vector, in the RFC's order:
  \<open>v[a] := (v[a] + v[b] + x) mod 2^64\<close>, \<open>v[d] := (v[d] ^ v[a]) >>> 32\<close>,
  \<open>v[c] := (v[c] + v[d]) mod 2^64\<close>, \<open>v[b] := (v[b] ^ v[c]) >>> 24\<close>, and the same
  four again with \<open>y\<close> and the rotations 16 and 63.
\<close>

definition mix_add :: "nat \<Rightarrow> nat \<Rightarrow> nat \<Rightarrow> nat list \<Rightarrow> nat list" where
  "mix_add a b x v = v[a := (v ! a + v ! b + x) mod 2 ^ 64]"

definition mix_rot :: "nat \<Rightarrow> nat \<Rightarrow> nat \<Rightarrow> nat list \<Rightarrow> nat list" where
  "mix_rot d a n v = v[d := rotr64 n (v ! d XOR v ! a)]"

definition G :: "nat list \<Rightarrow> nat \<Rightarrow> nat \<Rightarrow> nat \<Rightarrow> nat \<Rightarrow> nat \<Rightarrow> nat \<Rightarrow> nat list" where
  "G v a b c d x y =
     mix_rot b c 63 (mix_add c d 0 (mix_rot d a 16 (mix_add a b y
    (mix_rot b c 24 (mix_add c d 0 (mix_rot d a 32 (mix_add a b x v)))))))"

definition round_b :: "nat list \<Rightarrow> nat \<Rightarrow> nat list \<Rightarrow> nat list" where
  "round_b m i v =
     G (G (G (G (G (G (G (G v
       0 4 8 12 (m ! (sigma_perm ! (i mod 10) ! 0)) (m ! (sigma_perm ! (i mod 10) ! 1)))
       1 5 9 13 (m ! (sigma_perm ! (i mod 10) ! 2)) (m ! (sigma_perm ! (i mod 10) ! 3)))
       2 6 10 14 (m ! (sigma_perm ! (i mod 10) ! 4)) (m ! (sigma_perm ! (i mod 10) ! 5)))
       3 7 11 15 (m ! (sigma_perm ! (i mod 10) ! 6)) (m ! (sigma_perm ! (i mod 10) ! 7)))
       0 5 10 15 (m ! (sigma_perm ! (i mod 10) ! 8)) (m ! (sigma_perm ! (i mod 10) ! 9)))
       1 6 11 12 (m ! (sigma_perm ! (i mod 10) ! 10)) (m ! (sigma_perm ! (i mod 10) ! 11)))
       2 7 8 13 (m ! (sigma_perm ! (i mod 10) ! 12)) (m ! (sigma_perm ! (i mod 10) ! 13)))
       3 4 9 14 (m ! (sigma_perm ! (i mod 10) ! 14)) (m ! (sigma_perm ! (i mod 10) ! 15))"

text \<open>
  The compression function \<open>F\<close>: the work vector is the state followed by the
  initialisation vector, with the byte counter \<open>t\<close> mixed into words 12 and 13 and word
  14 inverted for the final block; twelve rounds; then \<open>h[i] ^ v[i] ^ v[i + 8]\<close>.
\<close>

definition init_v :: "nat list \<Rightarrow> nat \<Rightarrow> bool \<Rightarrow> nat list" where
  "init_v h t f =
     h @ [IV ! 0, IV ! 1, IV ! 2, IV ! 3,
          IV ! 4 XOR (t mod 2 ^ 64), IV ! 5 XOR (t div 2 ^ 64),
          (if f then IV ! 6 XOR 0xFFFFFFFFFFFFFFFF else IV ! 6), IV ! 7]"

definition fold_v :: "nat list \<Rightarrow> nat list \<Rightarrow> nat list" where
  "fold_v h v = map (\<lambda>i. h ! i XOR v ! i XOR v ! (i + 8)) [0, 1, 2, 3, 4, 5, 6, 7]"

definition F :: "nat list \<Rightarrow> nat list \<Rightarrow> nat \<Rightarrow> bool \<Rightarrow> nat list" where
  "F h m t f = fold_v h (fold (round_b m) [0, 1, 2, 3, 4, 5, 6, 7, 8, 9, 10, 11] (init_v h t f))"

text \<open>
  A block as sixteen little-endian words. A last block shorter than 128 bytes is padded
  with zeros: \<open>le_word\<close> reads the bytes that are missing as 0.
\<close>

fun le_word :: "byte list \<Rightarrow> nat" where
  "le_word [] = 0"
| "le_word (b # bs) = unat b + 256 * le_word bs"

definition block_words :: "byte list \<Rightarrow> nat list" where
  "block_words bs =
     map (\<lambda>i. le_word (take 8 (drop (8 * i) bs)))
       [0, 1, 2, 3, 4, 5, 6, 7, 8, 9, 10, 11, 12, 13, 14, 15]"

text \<open>
  The blocks of the message, \<open>t\<close> bytes of which have been compressed: every block but
  the last is compressed with the counter advanced by 128; the last one (the only one
  for an empty message), padded with zeros, with the total length and the final flag.
\<close>

function blocks :: "nat list \<Rightarrow> nat \<Rightarrow> byte list \<Rightarrow> nat list" where
  "blocks h t bs =
     (if length bs \<le> 128
      then F h (block_words bs) (t + length bs) True
      else blocks (F h (block_words (take 128 bs)) (t + 128) False) (t + 128) (drop 128 bs))"
  by pat_completeness auto
termination
  by (relation "measure (\<lambda>(h, t, bs). length bs)") auto

declare blocks.simps [simp del]

text \<open>
  Unkeyed BLAKE2b with a 64-byte digest: the parameter block turns \<open>h[0]\<close> into
  \<open>IV[0] ^ 0x01010000 ^ 64\<close>; the digest is the eight state words in little-endian
  byte order.
\<close>

definition word_bytes :: "nat \<Rightarrow> byte list" where
  "word_bytes w = map (\<lambda>k. of_nat (w div 256 ^ k mod 256)) [0, 1, 2, 3, 4, 5, 6, 7]"

definition BLAKE2b_512 :: "byte list \<Rightarrow> byte list" where
  "BLAKE2b_512 d = concat (map word_bytes (blocks (IV[0 := IV ! 0 XOR 0x01010040]) 0 d))"

definition hex_digit :: "nat \<Rightarrow> char" where
  "hex_digit n = ''0123456789abcdef'' ! n"

definition hex :: "byte list \<Rightarrow> string" where
  "hex bs = concat (map (\<lambda>b. [hex_digit (unat b div 16), hex_digit (unat b mod 16)]) bs)"

text \<open>The digest of a message in lower-case hexadecimal, as the test vectors give it.\<close>

definition blake2b_hex :: "byte list \<Rightarrow> string" where
  "blake2b_hex d = hex (BLAKE2b_512 d)"

text \<open>
  The object made by \<open>hashlib.blake2b()\<close> (64 bytes, the default \<open>digest_size\<close>, no
  key) hashes a stream: it holds the state words, the count of bytes compressed and a
  buffer of the bytes not yet compressed. \<open>update\<close> appends its argument to the buffer
  and compresses blocks of 128 bytes as long as more than one block is buffered: the
  last block stays in the buffer, since only the end of the stream tells which block
  is the final one. \<open>hexdigest\<close> compresses the buffer as the final block, without
  changing the object, and prints the state words.
\<close>

type_synonym blake2b = "nat list \<times> nat \<times> byte list"

definition blake2b_new :: "blake2b" where
  "blake2b_new = (IV[0 := IV ! 0 XOR 0x01010040], 0, [])"

function absorb :: "nat list \<Rightarrow> nat \<Rightarrow> byte list \<Rightarrow> blake2b" where
  "absorb h t buf =
     (if length buf \<le> 128 then (h, t, buf)
      else absorb (F h (block_words (take 128 buf)) (t + 128) False) (t + 128) (drop 128 buf))"
  by pat_completeness auto
termination
  by (relation "measure (\<lambda>(h, t, buf). length buf)") auto

declare absorb.simps [simp del]

definition update :: "blake2b \<Rightarrow> byte list \<Rightarrow> blake2b" where
  "update b chunk = (case b of (h, t, buf) \<Rightarrow> absorb h t (buf @ chunk))"

definition hexdigest :: "blake2b \<Rightarrow> string" where
  "hexdigest b =
     (case b of (h, t, buf) \<Rightarrow>
        hex (concat (map word_bytes (F h (block_words buf) (t + length buf) True))))"


section \<open>Exceptions, files and directories\<close>

text \<open>
  The exceptions that the code can meet. \<open>IOError\<close> is an alias of \<open>OSError\<close>; the
  string is the exception's text, which the f-strings print as \<open>{e}\<close>. \<open>MemoryError\<close>
  has no text.
\<close>

datatype exn =
    OSError string
  | ValueError string
  | ZeroDivisionError string
  | OverflowError string
  | MemoryError

text \<open>
  A \<open>pathlib.Path\<close> together with what the system answers for it during the scan.
  The directory is listed first and the files are hashed later, each in its own task,
  and the file system can change in between (a file removed during the scan), so the
  answer to \<open>is_file()\<close> at the listing and the answer to \<open>stat()\<close> in the task are
  separate fields:
  \<^item> \<open>is_file_result\<close>: what \<open>is_file()\<close> does when the directory is listed. It returns
    a truth value (false also for a path that does not exist: the errors ENOENT,
    ENOTDIR, EBADF and ELOOP of its \<open>stat()\<close> are turned into \<open>False\<close>), or it raises
    every other \<open>OSError\<close> of its \<open>stat()\<close> with the given text, for example
    \<open>PermissionError\<close> for the entries of a directory that can be listed and not
    searched;
  \<^item> \<open>stat_result\<close>: in the task, \<open>stat()\<close> raises \<open>OSError\<close> with the given text, or
    returns a result with the given \<open>st_size\<close>;
  \<^item> \<open>open_result\<close>: \<open>open('rb')\<close> raises \<open>OSError\<close> with the given text, or succeeds;
  \<^item> \<open>content\<close>: the bytes of the file;
  \<^item> \<open>read_fault\<close>: \<open>Some (k, msg)\<close> when the device serves \<open>k\<close> read requests and the
    next one raises \<open>OSError\<close> with text \<open>msg\<close> (file removed while it is read, device
    error); \<open>None\<close> when every request is served;
  \<^item> \<open>memory\<close>: the size in bytes of the largest \<open>bytes\<close> object that the allocator
    grants while the file is read; a larger one raises \<open>MemoryError\<close>.
\<close>

record entry =
  path_str :: string
  is_file_result :: "string + bool"
  stat_result :: "string + nat"
  open_result :: "string option"
  content :: "byte list"
  read_fault :: "(nat \<times> string) option"
  memory :: nat

definition name :: "entry \<Rightarrow> string" where
  "name p = name_of (path_str p)"

definition suffix :: "entry \<Rightarrow> string" where
  "suffix p = suffix_of (name p)"

definition stat_size :: "entry \<Rightarrow> exn + nat" where
  "stat_size p = (case stat_result p of Inl msg \<Rightarrow> Inl (OSError msg) | Inr sz \<Rightarrow> Inr sz)"

definition is_file :: "entry \<Rightarrow> exn + bool" where
  "is_file p = (case is_file_result p of Inl msg \<Rightarrow> Inl (OSError msg) | Inr b \<Rightarrow> Inr b)"

text \<open>
  An open binary file: the bytes not yet read, the fault of the device, the number of
  read requests made to it so far, and the memory that the allocator grants.
\<close>

record handle =
  rest :: "byte list"
  fault :: "(nat \<times> string) option"
  requests :: nat
  room :: nat

definition open_rb :: "entry \<Rightarrow> exn + handle" where
  "open_rb p =
     (case open_result p of
        Some msg \<Rightarrow> Inl (OSError msg)
      | None \<Rightarrow> Inr \<lparr>rest = content p, fault = read_fault p, requests = 0, room = memory p\<rparr>)"

text \<open>
  \<open>f.read(n)\<close> on a buffered binary file (\<open>BufferedReader\<close> of CPython 3.11, 64 bit),
  in the order of its checks:
  \<^item> \<open>n\<close> is converted to a C \<open>ssize_t\<close>: outside \<open>-2^63 \<dots> 2^63 - 1\<close> this raises
    \<open>OverflowError\<close>;
  \<^item> a length below \<open>-1\<close> is refused with \<open>ValueError\<close>;
  \<^item> \<open>read(0)\<close> returns \<open>b''\<close> at once, without a request to the device;
  \<^item> \<open>read(-1)\<close> returns everything up to the end of the file, \<open>MemoryError\<close> when
    that does not fit the memory;
  \<^item> a positive \<open>n\<close> first allocates the \<open>bytes\<close> object of \<open>n\<close> bytes that it will
    return, whatever the size of the file: \<open>OverflowError\<close> when \<open>n\<close> and the 33 bytes
    of the object's header exceed \<open>2^63 - 1\<close>, \<open>MemoryError\<close> when the allocator does
    not grant \<open>n\<close> bytes; then it returns the next \<open>n\<close> bytes, fewer only at the end of
    the file.
  A request that meets the device's fault raises \<open>OSError\<close>.
\<close>

definition faulty :: "handle \<Rightarrow> string option" where
  "faulty f =
     (case fault f of
        None \<Rightarrow> None
      | Some (k, msg) \<Rightarrow> if k \<le> requests f then Some msg else None)"

definition index_overflow :: string where
  "index_overflow =
     ''cannot fit '' @ [CHR 0x27] @ ''int'' @ [CHR 0x27] @ '' into an index-sized integer''"

definition read :: "int \<Rightarrow> handle \<Rightarrow> (exn + byte list) \<times> handle" where
  "read n f =
     (if n < - (2 ^ 63) \<or> 2 ^ 63 \<le> n then (Inl (OverflowError index_overflow), f)
      else if n < - 1 then (Inl (ValueError ''read length must be non-negative or -1''), f)
      else if n = 0 then (Inr [], f)
      else if n = - 1 then
        (if room f < length (rest f) then (Inl MemoryError, f)
         else (case faulty f of
                 Some msg \<Rightarrow> (Inl (OSError msg), f\<lparr>requests := requests f + 1\<rparr>)
               | None \<Rightarrow> (Inr (rest f), f\<lparr>rest := [], requests := requests f + 1\<rparr>)))
      else if 2 ^ 63 - 33 \<le> n then (Inl (OverflowError ''byte string is too large''), f)
      else if int (room f) < n then (Inl MemoryError, f)
      else (case faulty f of
              Some msg \<Rightarrow> (Inl (OSError msg), f\<lparr>requests := requests f + 1\<rparr>)
            | None \<Rightarrow>
                (Inr (take (nat n) (rest f)),
                 f\<lparr>rest := drop (nat n) (rest f), requests := requests f + 1\<rparr>)))"

text \<open>
  A directory path, as \<open>is_dir()\<close> and \<open>iterdir()\<close> see it: not an existing directory
  (\<open>is_dir()\<close> returns \<open>False\<close>, also when the path does not exist); a directory, whose
  listing raises \<open>OSError\<close> or yields its entries; or a path whose \<open>stat()\<close> raises an
  \<open>OSError\<close> that \<open>is_dir()\<close> does not turn into \<open>False\<close>, for example
  \<open>PermissionError\<close> for a path under a directory that cannot be searched.
\<close>

datatype dir_state = No_directory | Directory "string + entry list" | Inaccessible string

type_synonym filesystem = "string \<Rightarrow> dir_state"

definition is_dir :: "filesystem \<Rightarrow> string \<Rightarrow> exn + bool" where
  "is_dir fs d =
     (case fs d of
        No_directory \<Rightarrow> Inr False
      | Directory l \<Rightarrow> Inr True
      | Inaccessible msg \<Rightarrow> Inl (OSError msg))"

definition iterdir :: "filesystem \<Rightarrow> string \<Rightarrow> exn + entry list" where
  "iterdir fs d =
     (case fs d of
        No_directory \<Rightarrow> Inl (OSError ''No such file or directory'')
      | Directory (Inl msg) \<Rightarrow> Inl (OSError msg)
      | Directory (Inr es) \<Rightarrow> Inr es
      | Inaccessible msg \<Rightarrow> Inl (OSError msg))"

text \<open>\<open>io.DEFAULT_BUFFER_SIZE\<close>, the default of \<open>chunk_size\<close> (8192 in CPython).\<close>

definition DEFAULT_BUFFER_SIZE :: int where
  "DEFAULT_BUFFER_SIZE = 8192"


section \<open>Logging\<close>

text \<open>
  One constructor for each logging call of \<open>blake2b_1.py\<close>, with the values its
  f-string prints. The log of a run is the list of the records emitted; the root logger
  is at level INFO (DEBUG with \<open>--verbose\<close>), so every record is shown.
  The time stamps of the records and the elapsed seconds that end the \<open>Completed\<close> line
  are wall-clock values and are not part of the model.
\<close>

datatype level = DEBUG | INFO | WARNING | ERROR

datatype event =
    Processing_file string nat
  | Completed string nat
  | Error_reading string string
  | Checksum_line string string
  | Not_a_directory string
  | No_files string string
  | Found_files nat string string
  | Checksum_completed nat nat
  | Verbose_enabled

fun level_of :: "event \<Rightarrow> level" where
  "level_of (Processing_file nm sz) = INFO"
| "level_of (Completed nm sz) = INFO"
| "level_of (Error_reading p e) = ERROR"
| "level_of (Checksum_line nm h) = INFO"
| "level_of (Not_a_directory d) = ERROR"
| "level_of (No_files ext d) = WARNING"
| "level_of (Found_files n ext d) = INFO"
| "level_of (Checksum_completed k n) = INFO"
| "level_of Verbose_enabled = DEBUG"

fun message :: "event \<Rightarrow> string" where
  "message (Processing_file nm sz) =
     ''Processing file: '' @ nm @ '' ('' @ str_nat sz @ '' bytes)''"
| "message (Completed nm sz) =
     '' Completed: '' @ nm @ '' | Size: '' @ str_nat sz @ '' bytes | Time: ''"
| "message (Error_reading p e) = '' Error reading file '' @ p @ '': '' @ e"
| "message (Checksum_line nm h) = ljust40 nm @ '' BLAKE2b: '' @ h"
| "message (Not_a_directory d) =
     ''The specified path '' @ [CHR 0x27] @ d @ [CHR 0x27] @ '' is not a valid directory.''"
| "message (No_files ext d) =
     ''No files with extension '' @ [CHR 0x27] @ ext @ [CHR 0x27] @ '' found in '' @ d @ ''.''"
| "message (Found_files n ext d) =
     ''Found '' @ str_nat n @ '' file(s) with extension '' @ [CHR 0x27] @ ext @ [CHR 0x27]
       @ '' in '' @ d @ ''. Starting checksum calculations...''"
| "message (Checksum_completed k n) =
     ''Checksum completed. '' @ str_nat k @ ''/'' @ str_nat n @ '' files processed successfully.''"
| "message Verbose_enabled = ''Verbose mode enabled: Showing detailed processing logs...''"


section \<open>The hashing function\<close>

text \<open>
  The read loop of \<open>calculate_blake2b\<close> (\<open>blake2b_1.py\<close>, lines 30 to 35):
  \<open>while True: chunk = f.read(chunk_size); if not chunk: break; blake2.update(chunk)\<close>.
  An exception of \<open>read\<close> leaves the loop. The loop also returns the file as it leaves
  it, which tells how many read requests were made.
\<close>

function read_loop :: "int \<Rightarrow> handle \<Rightarrow> blake2b \<Rightarrow> (exn + blake2b) \<times> handle" where
  "read_loop chunk_size f blake2 =
     (case read chunk_size f of
        (Inl e, f') \<Rightarrow> (Inl e, f')
      | (Inr chunk, f') \<Rightarrow>
          if chunk = [] then (Inr blake2, f')
          else read_loop chunk_size f' (update blake2 chunk))"
  by pat_completeness auto
termination
  by (relation "measure (\<lambda>(chunk_size, f, blake2). length (rest f))")
     (auto simp: read_def split: if_splits option.splits)

declare read_loop.simps [simp del]

text \<open>
  \<open>calculate_blake2b\<close> of \<open>blake2b_1.py\<close>. The result is the records logged and either
  the exception that leaves the function or its return value, an \<open>Optional[str]\<close>.
  \<open>stat()\<close> is called before the \<open>try\<close>, so its exception leaves the function; inside
  the \<open>try\<close>, \<open>except (OSError, IOError)\<close> catches an \<open>OSError\<close> of \<open>open\<close> or
  \<open>read\<close> and nothing else. The progress bar (\<open>tqdm\<close>, shown with \<open>verbose\<close>) writes
  to the terminal only and is not modelled.
\<close>

definition calculate_blake2b :: "entry \<Rightarrow> bool \<Rightarrow> int \<Rightarrow> event list \<times> (exn + string option)" where
  "calculate_blake2b file_path verbose chunk_size =
     (case stat_size file_path of
        Inl e \<Rightarrow> ([], Inl e)
      | Inr file_size \<Rightarrow>
          (case open_rb file_path of
             Inl (OSError e) \<Rightarrow>
               ([Processing_file (name file_path) file_size,
                 Error_reading (path_str file_path) e], Inr None)
           | Inl e \<Rightarrow> ([Processing_file (name file_path) file_size], Inl e)
           | Inr f \<Rightarrow>
               (case fst (read_loop chunk_size f blake2b_new) of
                  Inl (OSError e) \<Rightarrow>
                    ([Processing_file (name file_path) file_size,
                      Error_reading (path_str file_path) e], Inr None)
                | Inl e \<Rightarrow> ([Processing_file (name file_path) file_size], Inl e)
                | Inr blake2 \<Rightarrow>
                    ([Processing_file (name file_path) file_size,
                      Completed (name file_path) file_size], Inr (Some (hexdigest blake2))))))"

text \<open>
  A call that leaves keyword arguments out: Python binds them to the defaults of the
  \<open>def\<close> line, \<open>verbose=False\<close> and \<open>chunk_size=io.DEFAULT_BUFFER_SIZE\<close>.
\<close>

definition calculate_blake2b_call ::
  "entry \<Rightarrow> bool option \<Rightarrow> int option \<Rightarrow> event list \<times> (exn + string option)" where
  "calculate_blake2b_call file_path verbose chunk_size =
     calculate_blake2b file_path
       (case verbose of None \<Rightarrow> False | Some v \<Rightarrow> v)
       (case chunk_size of None \<Rightarrow> DEFAULT_BUFFER_SIZE | Some c \<Rightarrow> c)"

text \<open>
  The earlier variant in \<open>blake2_sum4.py\<close>: the same function, except that the loop is
  \<open>for chunk in tqdm(iter(lambda: f.read(chunk_size), b''), total=(file_size // chunk_size) + 1, ...)\<close>.
  The arguments of \<open>tqdm\<close> are evaluated once the file is open and before the first
  read, and the division raises \<open>ZeroDivisionError\<close> for a chunk size of 0.
\<close>

definition calculate_blake2b_sum4 :: "entry \<Rightarrow> bool \<Rightarrow> int \<Rightarrow> event list \<times> (exn + string option)" where
  "calculate_blake2b_sum4 file_path verbose chunk_size =
     (case stat_size file_path of
        Inl e \<Rightarrow> ([], Inl e)
      | Inr file_size \<Rightarrow>
          (case open_rb file_path of
             Inl (OSError e) \<Rightarrow>
               ([Processing_file (name file_path) file_size,
                 Error_reading (path_str file_path) e], Inr None)
           | Inl e \<Rightarrow> ([Processing_file (name file_path) file_size], Inl e)
           | Inr f \<Rightarrow>
               if chunk_size = 0
               then ([Processing_file (name file_path) file_size],
                     Inl (ZeroDivisionError ''integer division or modulo by zero''))
               else
               (case fst (read_loop chunk_size f blake2b_new) of
                  Inl (OSError e) \<Rightarrow>
                    ([Processing_file (name file_path) file_size,
                      Error_reading (path_str file_path) e], Inr None)
                | Inl e \<Rightarrow> ([Processing_file (name file_path) file_size], Inl e)
                | Inr blake2 \<Rightarrow>
                    ([Processing_file (name file_path) file_size,
                      Completed (name file_path) file_size], Inr (Some (hexdigest blake2))))))"

text \<open>
  The first variant in \<open>blake2_sum.py\<close>: no logging and no \<open>stat()\<close>, the chunk size
  is \<open>io.DEFAULT_BUFFER_SIZE\<close>, and an \<open>OSError\<close> is returned as the string
  \<open>f"Error: {e}"\<close> in place of the digest.
\<close>

definition calculate_blake2b_sum :: "entry \<Rightarrow> exn + string" where
  "calculate_blake2b_sum file_path =
     (case open_rb file_path of
        Inl (OSError e) \<Rightarrow> Inr (''Error: '' @ e)
      | Inl e \<Rightarrow> Inl e
      | Inr f \<Rightarrow>
          (case fst (read_loop DEFAULT_BUFFER_SIZE f blake2b_new) of
             Inl (OSError e) \<Rightarrow> Inr (''Error: '' @ e)
           | Inl e \<Rightarrow> Inl e
           | Inr blake2 \<Rightarrow> Inr (hexdigest blake2)))"


section \<open>The scan\<close>

text \<open>Truth value of an \<open>Optional[str]\<close>: \<open>None\<close> and the empty string are false.\<close>

fun truthy :: "string option \<Rightarrow> bool" where
  "truthy None = False"
| "truthy (Some s) = (s \<noteq> [])"

definition process_file :: "entry \<Rightarrow> bool \<Rightarrow> int \<Rightarrow> event list \<times> (exn + string option)" where
  "process_file file verbose chunk_size =
     (case calculate_blake2b file verbose chunk_size of
        (log, Inl e) \<Rightarrow> (log, Inl e)
      | (log, Inr blake2_hash) \<Rightarrow>
          (if truthy blake2_hash
           then log @ [Checksum_line (name file) (case blake2_hash of Some h \<Rightarrow> h | None \<Rightarrow> [])]
           else log,
           Inr blake2_hash))"

text \<open>
  The list comprehension of line 59:
  \<open>[f for f in dir_path.iterdir() if f.is_file() and f.suffix.lower() == ext]\<close>.
  It takes the entries in the order of the listing and calls \<open>is_file()\<close> on each;
  the first call that raises leaves the comprehension, and the scan, with its exception.
  \<open>matching_files\<close> is the selection itself: the entries for which \<open>is_file()\<close>
  returns \<open>True\<close> and whose lower-cased suffix equals \<open>ext\<close>.
\<close>

definition matching_files :: "entry list \<Rightarrow> string \<Rightarrow> entry list" where
  "matching_files es ext = filter (\<lambda>f. is_file f = Inr True \<and> lower (suffix f) = ext) es"

fun files_of :: "entry list \<Rightarrow> string \<Rightarrow> exn + entry list" where
  "files_of [] ext = Inr []"
| "files_of (f # es) ext =
     (case is_file f of
        Inl e \<Rightarrow> Inl e
      | Inr b \<Rightarrow>
          (case files_of es ext of
             Inl e \<Rightarrow> Inl e
           | Inr files \<Rightarrow> Inr (if b \<and> lower (suffix f) = ext then f # files else files)))"

text \<open>
  The tasks run in the threads of a \<open>ThreadPoolExecutor\<close>. Each task emits its records
  in its own order; the log of the pool is some interleaving of the logs of the tasks.
\<close>

inductive interleaved :: "'a list list \<Rightarrow> 'a list \<Rightarrow> bool" where
  interleaved_Nil: "interleaved [] []"
| interleaved_Cons: "interleaved ls ys \<Longrightarrow> zs \<in> shuffles l ys \<Longrightarrow> interleaved (l # ls) zs"

text \<open>
  Line 68 submits one task for each file, in the order of \<open>files\<close>, and keeps its
  future. The tasks are independent, so the future of a file holds the outcome of
  \<open>process_file\<close> on it: the value returned or the exception raised. A future is
  written here as the position of its file in \<open>files\<close> with this outcome.
\<close>

definition futures :: "entry list \<Rightarrow> bool \<Rightarrow> int \<Rightarrow> (nat \<times> (exn + string option)) list" where
  "futures files verbose chunk_size =
     zip [0..<length files] (map (\<lambda>file. snd (process_file file verbose chunk_size)) files)"

text \<open>
  \<open>as_completed(futures)\<close> yields the futures as their tasks finish: at each step any
  one of the futures still pending is the next to complete; it is yielded and is
  pending no more.
\<close>

inductive as_completed :: "'a list \<Rightarrow> 'a list \<Rightarrow> bool" where
  as_completed_Nil: "as_completed [] []"
| as_completed_Cons:
    "i < length pending \<Longrightarrow>
     as_completed (take i pending @ drop (Suc i) pending) yielded \<Longrightarrow>
     as_completed pending (pending ! i # yielded)"

text \<open>
  The loop over \<open>as_completed(futures)\<close> (lines 69 to 72), on the outcomes of the tasks
  in the order of their completion: \<open>future.result()\<close> returns the value of the task or
  raises its exception, which leaves the loop.
\<close>

fun collect :: "(exn + string option) list \<Rightarrow> nat \<Rightarrow> exn + nat" where
  "collect [] success_count = Inr success_count"
| "collect (Inl e # rs) success_count = Inl e"
| "collect (Inr result # rs) success_count =
     collect rs (if truthy result then success_count + 1 else success_count)"

text \<open>
  \<open>check_blake2_sums\<close> of \<open>blake2b_1.py\<close>, as the relation between its arguments and
  the runs it can make: the records logged and the exception that leaves the function
  or its normal return. An exception of \<open>is_dir()\<close>, of the listing or of an
  \<open>is_file()\<close> leaves the function before anything is logged. Leaving the \<open>with\<close>
  block waits for every task, also when an exception leaves the loop, so the records
  of all tasks are in the log in both cases.
\<close>

inductive check_blake2_sums ::
  "filesystem \<Rightarrow> string \<Rightarrow> bool \<Rightarrow> string \<Rightarrow> int \<Rightarrow> event list \<Rightarrow> exn + unit \<Rightarrow> bool"
  for fs :: filesystem and directory :: string and verbose :: bool and ext :: string
    and chunk_size :: int
where
  scan_is_dir_raises:
    "is_dir fs directory = Inl e \<Longrightarrow>
     check_blake2_sums fs directory verbose ext chunk_size [] (Inl e)"
| scan_no_directory:
    "is_dir fs directory = Inr False \<Longrightarrow>
     check_blake2_sums fs directory verbose ext chunk_size [Not_a_directory directory] (Inr ())"
| scan_no_listing:
    "is_dir fs directory = Inr True \<Longrightarrow> iterdir fs directory = Inl e \<Longrightarrow>
     check_blake2_sums fs directory verbose ext chunk_size [] (Inl e)"
| scan_is_file_raises:
    "is_dir fs directory = Inr True \<Longrightarrow> iterdir fs directory = Inr es \<Longrightarrow>
     files_of es ext = Inl e \<Longrightarrow>
     check_blake2_sums fs directory verbose ext chunk_size [] (Inl e)"
| scan_no_files:
    "is_dir fs directory = Inr True \<Longrightarrow> iterdir fs directory = Inr es \<Longrightarrow>
     files_of es ext = Inr [] \<Longrightarrow>
     check_blake2_sums fs directory verbose ext chunk_size [No_files ext directory] (Inr ())"
| scan_completed:
    "is_dir fs directory = Inr True \<Longrightarrow> iterdir fs directory = Inr es \<Longrightarrow>
     files_of es ext = Inr files \<Longrightarrow> files \<noteq> [] \<Longrightarrow>
     interleaved (map (\<lambda>file. fst (process_file file verbose chunk_size)) files) task_log \<Longrightarrow>
     as_completed (futures files verbose chunk_size) yielded \<Longrightarrow>
     collect (map snd yielded) 0 = Inr success_count \<Longrightarrow>
     check_blake2_sums fs directory verbose ext chunk_size
       (Found_files (length files) ext directory # task_log
          @ [Checksum_completed success_count (length files)])
       (Inr ())"
| scan_aborted:
    "is_dir fs directory = Inr True \<Longrightarrow> iterdir fs directory = Inr es \<Longrightarrow>
     files_of es ext = Inr files \<Longrightarrow> files \<noteq> [] \<Longrightarrow>
     interleaved (map (\<lambda>file. fst (process_file file verbose chunk_size)) files) task_log \<Longrightarrow>
     as_completed (futures files verbose chunk_size) yielded \<Longrightarrow>
     collect (map snd yielded) 0 = Inl e \<Longrightarrow>
     check_blake2_sums fs directory verbose ext chunk_size
       (Found_files (length files) ext directory # task_log) (Inl e)"

text \<open>
  \<open>main\<close>: the parsed command line with the defaults of \<open>argparse\<close>, then the scan.
  The exit status of the process is 0 when \<open>main\<close> returns and 1 when an exception
  leaves it. No statement of the program sets another status.
\<close>

record cli =
  directory_arg :: "string option"
  verbose_flag :: bool
  ext_arg :: "string option"
  chunk_size_arg :: "int option"

definition directory_of :: "cli \<Rightarrow> string" where
  "directory_of args = (case directory_arg args of None \<Rightarrow> ''.'' | Some d \<Rightarrow> d)"

definition ext_of :: "cli \<Rightarrow> string" where
  "ext_of args = (case ext_arg args of None \<Rightarrow> ''.iso'' | Some x \<Rightarrow> x)"

definition chunk_size_of :: "cli \<Rightarrow> int" where
  "chunk_size_of args = (case chunk_size_arg args of None \<Rightarrow> DEFAULT_BUFFER_SIZE | Some c \<Rightarrow> c)"

inductive main :: "filesystem \<Rightarrow> cli \<Rightarrow> event list \<Rightarrow> nat \<Rightarrow> bool"
  for fs :: filesystem and args :: cli
where
  main_run:
    "check_blake2_sums fs (directory_of args) (verbose_flag args) (ext_of args)
       (chunk_size_of args) log r \<Longrightarrow>
     main fs args
       ((if verbose_flag args then [Verbose_enabled] else []) @ log)
       (case r of Inl e \<Rightarrow> 1 | Inr u \<Rightarrow> 0)"


section \<open>Notions used by the claims\<close>



fun is_summary :: "event \<Rightarrow> bool" where
  "is_summary (Checksum_completed k n) = True"
| "is_summary ev = False"


text \<open>The hash object that has been fed the bytes \<open>d\<close>, in one call of \<open>update\<close>.\<close>

definition fed :: "byte list \<Rightarrow> blake2b" where
  "fed d = update blake2b_new d"

text \<open>
  A file is readable when \<open>stat()\<close> and \<open>open\<close> succeed and the device serves every
  read request.
\<close>

definition stat_succeeds :: "entry \<Rightarrow> bool" where
  "stat_succeeds p = (case stat_result p of Inl msg \<Rightarrow> False | Inr sz \<Rightarrow> True)"

definition readable :: "entry \<Rightarrow> bool" where
  "readable p \<longleftrightarrow> stat_succeeds p \<and> open_result p = None \<and> read_fault p = None"

text \<open>
  A chunk size is served for a file when \<open>read\<close> accepts it and can allocate its
  result: it is not negative, it is at most the memory granted while the file is read,
  and it is below \<open>2^63 - 33\<close>.
\<close>

definition served :: "entry \<Rightarrow> int \<Rightarrow> bool" where
  "served p c \<longleftrightarrow> 0 \<le> c \<and> c \<le> int (memory p) \<and> c < 2 ^ 63 - 33"

text \<open>
  The files and directories of the examples, each file with a memory of 1 GiB: a
  readable file with a given content; a file that cannot be opened; a file whose second
  read request fails; a file that is listed and has gone when its task calls \<open>stat()\<close>;
  an entry on which \<open>is_file()\<close> raises. The directory \<open>d\<close> has two files that match
  \<open>.iso\<close> and one that does not, \<open>e\<close> has no matching file, \<open>v\<close> has the file that
  goes, \<open>p\<close> can be listed and not searched, the path \<open>q/x\<close> lies under a directory
  that cannot be searched, and there is no other directory.
\<close>

definition iso_file :: "string \<Rightarrow> byte list \<Rightarrow> entry" where
  "iso_file p bs =
     \<lparr>path_str = p, is_file_result = Inr True, stat_result = Inr (length bs),
      open_result = None, content = bs, read_fault = None, memory = 1073741824\<rparr>"

definition denied_file :: entry where
  "denied_file =
     \<lparr>path_str = ''d/a.iso'', is_file_result = Inr True, stat_result = Inr 3,
      open_result = Some ''[Errno 13] Permission denied'', content = [0x61, 0x62, 0x63],
      read_fault = None, memory = 1073741824\<rparr>"

definition faulty_file :: entry where
  "faulty_file =
     \<lparr>path_str = ''d/b.iso'', is_file_result = Inr True, stat_result = Inr 3,
      open_result = None, content = [0x61, 0x62, 0x63],
      read_fault = Some (1, ''[Errno 5] Input/output error''), memory = 1073741824\<rparr>"

definition vanished_file :: entry where
  "vanished_file =
     \<lparr>path_str = ''v/b.iso'', is_file_result = Inr True,
      stat_result = Inl ''[Errno 2] No such file or directory'',
      open_result = Some ''[Errno 2] No such file or directory'', content = [],
      read_fault = None, memory = 1073741824\<rparr>"

definition hidden_file :: entry where
  "hidden_file =
     \<lparr>path_str = ''p/a.iso'', is_file_result = Inl ''[Errno 13] Permission denied'',
      stat_result = Inl ''[Errno 13] Permission denied'',
      open_result = Some ''[Errno 13] Permission denied'', content = [],
      read_fault = None, memory = 1073741824\<rparr>"

definition example_fs :: filesystem where
  "example_fs =
     (\<lambda>d. No_directory)
       (''d'' := Directory (Inr [iso_file ''d/C.ISO'' [0x68, 0x69], denied_file,
                                 iso_file ''d/notes.txt'' [0x68, 0x69]]),
        ''e'' := Directory (Inr [iso_file ''e/notes.txt'' [0x68, 0x69]]),
        ''v'' := Directory (Inr [iso_file ''v/a.iso'' [0x68, 0x69], vanished_file]),
        ''p'' := Directory (Inr [hidden_file]),
        ''q/x'' := Inaccessible ''[Errno 13] Permission denied'')"


section \<open>Test vectors of BLAKE2b-512\<close>

lemmas blake2b_eval =
  F_def fold_v_def init_v_def round_b_def sigma_perm_def G_def IV_def rotr64_def
  mix_add_def mix_rot_def

lemma blocks_last:
  "length bs \<le> 128 \<Longrightarrow> blocks h t bs = F h (block_words bs) (t + length bs) True"
  by (simp add: blocks.simps)

lemma initial_state:
  "IV[0 := IV ! 0 XOR 0x01010040] =
     [0x6a09e667f2bdc948, 0xbb67ae8584caa73b, 0x3c6ef372fe94f82b, 0xa54ff53a5f1d36f1,
      0x510e527fade682d1, 0x9b05688c2b3e6c1f, 0x1f83d9abfb41bd6b, 0x5be0cd19137e2179]"
  by (simp add: IV_def)

lemma block_words_empty: "block_words [] = [0, 0, 0, 0, 0, 0, 0, 0, 0, 0, 0, 0, 0, 0, 0, 0]"
  by (simp add: block_words_def)

lemma block_words_abc:
  "block_words [0x61, 0x62, 0x63] = [0x636261, 0, 0, 0, 0, 0, 0, 0, 0, 0, 0, 0, 0, 0, 0, 0]"
  by (simp add: block_words_def)

lemma state_empty:
  "blocks (IV[0 := IV ! 0 XOR 0x01010040]) 0 [] =
     [0x3590142f7026a78, 0x72d2522585fdc6c6, 0x614758e140472f91, 0x19541ff717e2868a,
      0x5358eeaf31105ed2, 0x4bb04e9344648913, 0x55b748145b683a90, 0xcee29bfe1a706fd5]"
  unfolding initial_state
  by (simp add: blocks_last block_words_empty) (simp add: blake2b_eval)

lemma state_abc:
  "blocks (IV[0 := IV ! 0 XOR 0x01010040]) 0 [0x61, 0x62, 0x63] =
     [0xd4d1c983fa580ba, 0xe9f6129fb697276a, 0xb7c45a68142f214c, 0xd1a2ffdb6fbb124b,
      0x2d79ab2a39c5877d, 0x95cc3345ded552c2, 0x5a92f1dba88ad318, 0x239900d4ed8623b9]"
  unfolding initial_state
  by (simp add: blocks_last block_words_abc) (simp add: blake2b_eval)

text \<open>The digest of the empty input.\<close>

lemma blake2b_hex_empty:
  "blake2b_hex [] =
     ''786a02f742015903c6c6fd852552d272912f4740e15847618a86e217f71f5419d25e1031afee585313896444934eb04b903a685b1448b755d56f701afe9be2ce''"
  unfolding blake2b_hex_def BLAKE2b_512_def state_empty
  by (simp add: word_bytes_def hex_def hex_digit_def)

text \<open>The test vector of RFC 7693, appendix A: BLAKE2b-512 of \<open>"abc"\<close>.\<close>

lemma blake2b_hex_abc:
  "blake2b_hex [0x61, 0x62, 0x63] =
     ''ba80a53f981c4d0d6a2797b69f12f6e94c212f14685ac4b74b12bb6fdbffa2d17d87c5392aab792dc252d5de4533cc9518d38aa8dbf1925ab92386edd4009923''"
  unfolding blake2b_hex_def BLAKE2b_512_def state_abc
  by (simp add: word_bytes_def hex_def hex_digit_def)

text \<open>A digest is 128 hexadecimal characters, so it is a true value.\<close>

lemma length_F: "length (F h m t f) = 8"
  by (simp add: F_def fold_v_def)

lemma length_hex: "length (hex bs) = 2 * length bs"
  by (induction bs) (simp_all add: hex_def)

lemma length_state_bytes: "length ws = 8 \<Longrightarrow> length (concat (map word_bytes ws)) = 64"
proof -
  have "length (concat (map word_bytes ws)) = 8 * length ws" for ws
    by (induction ws) (simp_all add: word_bytes_def)
  then show "length ws = 8 \<Longrightarrow> length (concat (map word_bytes ws)) = 64"
    by simp
qed

lemma length_hexdigest: "length (hexdigest b) = 128"
  by (cases b) (simp add: hexdigest_def length_hex length_state_bytes length_F)

lemma truthy_hexdigest: "truthy (Some (hexdigest b))"
  using length_hexdigest [of b] by auto


section \<open>The stream and the message\<close>

text \<open>
  Feeding a hash object in pieces is feeding it the concatenation at once, and the
  digest of an object that has been fed \<open>d\<close> is the BLAKE2b-512 digest of the message
  \<open>d\<close> as \<open>blocks\<close> computes it from the whole message.
\<close>

lemma absorb_append:
  "(case absorb h t buf of (h', t', buf') \<Rightarrow> absorb h' t' (buf' @ chunk)) =
   absorb h t (buf @ chunk)"
proof (induction h t buf rule: absorb.induct)
  case (1 h t buf)
  show ?case
  proof (cases "length buf \<le> 128")
    case True
    then show ?thesis
      by (subst absorb.simps) simp
  next
    case False
    then have "absorb h t (buf @ chunk) =
        absorb (F h (block_words (take 128 buf)) (t + 128) False) (t + 128) (drop 128 buf @ chunk)"
      by (subst absorb.simps) simp
    moreover have "absorb h t buf =
        absorb (F h (block_words (take 128 buf)) (t + 128) False) (t + 128) (drop 128 buf)"
      using False by (subst absorb.simps) simp
    ultimately show ?thesis
      using "1.IH" [OF False] by simp
  qed
qed

lemma absorb_digest:
  "(case absorb h t buf of (h', t', buf') \<Rightarrow> F h' (block_words buf') (t' + length buf') True) =
   blocks h t buf"
proof (induction h t buf rule: absorb.induct)
  case (1 h t buf)
  show ?case
  proof (cases "length buf \<le> 128")
    case True
    then show ?thesis
      by (subst absorb.simps, subst blocks.simps) simp
  next
    case False
    with "1.IH" [OF False] show ?thesis
      by (subst absorb.simps, subst blocks.simps) simp
  qed
qed

lemma fed_Nil: "fed [] = blake2b_new"
  by (simp add: fed_def update_def blake2b_new_def absorb.simps)

lemma update_fed: "update (fed d) chunk = fed (d @ chunk)"
  using absorb_append [where h = "IV[0 := IV ! 0 XOR 0x01010040]" and t = 0 and buf = d and chunk = chunk]
  by (simp add: fed_def update_def blake2b_new_def split: prod.splits)

lemma hexdigest_fed: "hexdigest (fed d) = blake2b_hex d"
  using absorb_digest [where h = "IV[0 := IV ! 0 XOR 0x01010040]" and t = 0 and buf = d]
  by (simp add: fed_def update_def blake2b_new_def hexdigest_def blake2b_hex_def BLAKE2b_512_def
        split: prod.splits)

lemma hexdigest_new: "hexdigest blake2b_new = blake2b_hex []"
  using hexdigest_fed [of "[]"] by (simp only: fed_Nil)

lemma truthy_blake2b_hex: "truthy (Some (blake2b_hex d))"
  using truthy_hexdigest [of "fed d"] by (simp only: hexdigest_fed)


section \<open>The read loop\<close>

text \<open>
  With a positive chunk size that is served and no fault, the loop feeds the hash every
  byte of the file, in order, whatever the chunk size.
\<close>

lemma read_loop_positive:
  "fault f = None \<Longrightarrow> 0 < c \<Longrightarrow> c \<le> int (room f) \<Longrightarrow> c < 2 ^ 63 - 33 \<Longrightarrow>
   fst (read_loop c f (fed d)) = Inr (fed (d @ rest f))"
proof (induction c f "fed d" arbitrary: d rule: read_loop.induct)
  case (1 c f)
  show ?case
  proof (cases "rest f = []")
    case True
    with "1.prems" show ?thesis
      by (subst read_loop.simps) (simp add: read_def faulty_def)
  next
    case False
    let ?f' = "f\<lparr>rest := drop (nat c) (rest f), requests := requests f + 1\<rparr>"
    have rd: "read c f = (Inr (take (nat c) (rest f)), ?f')"
      using "1.prems" by (simp add: read_def faulty_def)
    have ne: "take (nat c) (rest f) \<noteq> []"
      using False "1.prems" by simp
    have "fst (read_loop c ?f' (fed (d @ take (nat c) (rest f)))) =
          Inr (fed ((d @ take (nat c) (rest f)) @ rest ?f'))"
      using "1.prems" ne
      by (intro "1.hyps" [OF rd [symmetric] refl ne]) (simp_all add: update_fed)
    then show ?thesis
      using rd ne by (subst read_loop.simps) (simp add: update_fed)
  qed
qed

text \<open>A chunk size of 0: the first read returns \<open>b''\<close> and ends the loop.\<close>

lemma read_loop_zero: "fst (read_loop 0 f b) = Inr b"
  by (subst read_loop.simps) (simp add: read_def)


lemma read_loop_overflow:
  "c < - (2 ^ 63) \<or> 2 ^ 63 \<le> c \<Longrightarrow>
   fst (read_loop c f b) = Inl (OverflowError index_overflow)"
  by (subst read_loop.simps) (auto simp: read_def)


lemma read_loop_memory:
  "0 < c \<Longrightarrow> c < 2 ^ 63 - 33 \<Longrightarrow> int (room f) < c \<Longrightarrow>
   fst (read_loop c f b) = Inl MemoryError"
  by (subst read_loop.simps) (simp add: read_def)

text \<open>A read that raises \<open>OSError\<close> met the fault of the device, and was the last request.\<close>

lemma read_loop_OSError:
  "fst (read_loop c f b) = Inl (OSError e) \<Longrightarrow> fault f = Some (k, m) \<Longrightarrow> requests f \<le> k \<Longrightarrow>
   e = m \<and> requests (snd (read_loop c f b)) = k + 1"
proof (induction c f b rule: read_loop.induct)
  case (1 c f b)
  show ?case
  proof (cases "read c f")
    case (Pair r f')
    show ?thesis
    proof (cases r)
      case (Inl x)
      with Pair "1.prems" show ?thesis
        by (subst (asm) read_loop.simps, subst read_loop.simps)
           (auto simp: read_def faulty_def split: if_splits)
    next
      case (Inr chunk)
      show ?thesis
      proof (cases "chunk = []")
        case True
        with Pair Inr "1.prems"(1) show ?thesis
          by (subst (asm) read_loop.simps) simp
      next
        case False
        have f': "fault f' = Some (k, m)" "requests f' \<le> k"
          using Pair Inr "1.prems"(2,3) False
          by (auto simp: read_def faulty_def split: if_splits)
        have "fst (read_loop c f' (update b chunk)) = Inl (OSError e)"
          using "1.prems"(1) Pair Inr False by (subst (asm) read_loop.simps) simp
        from "1.IH" [OF Pair [symmetric] Inr False this f']
        show ?thesis
          using Pair Inr False by (subst read_loop.simps) simp
      qed
    qed
  qed
qed

lemma read_loop_no_fault_OSError:
  "fault f = None \<Longrightarrow> fst (read_loop c f b) \<noteq> Inl (OSError e)"
proof (induction c f b rule: read_loop.induct)
  case (1 c f b)
  show ?case
  proof (cases "read c f")
    case (Pair r f')
    show ?thesis
    proof (cases r)
      case (Inl x)
      with Pair "1.prems" show ?thesis
        by (subst read_loop.simps) (auto simp: read_def faulty_def split: if_splits)
    next
      case (Inr chunk)
      show ?thesis
      proof (cases "chunk = []")
        case True
        with Pair Inr show ?thesis
          by (subst read_loop.simps) simp
      next
        case False
        have f': "fault f' = None"
          using Pair Inr "1.prems" by (auto simp: read_def faulty_def split: if_splits)
        from "1.IH" [OF Pair [symmetric] Inr False f']
        show ?thesis
          using Pair Inr False by (subst read_loop.simps) simp
      qed
    qed
  qed
qed



section \<open>The hashing function on a readable file\<close>

lemma calculate_blake2b_readable:
  assumes "readable p"
    and "fst (read_loop c \<lparr>rest = content p, fault = None, requests = 0, room = memory p\<rparr>
           blake2b_new) = Inr b"
  shows "calculate_blake2b p v c =
           ([Processing_file (name p) (case stat_result p of Inr sz \<Rightarrow> sz | Inl m \<Rightarrow> 0),
             Completed (name p) (case stat_result p of Inr sz \<Rightarrow> sz | Inl m \<Rightarrow> 0)],
            Inr (Some (hexdigest b)))"
  using assms
  by (auto simp: calculate_blake2b_def readable_def stat_succeeds_def stat_size_def open_rb_def
           split: sum.splits prod.splits)

lemma calculate_blake2b_raises:
  assumes "readable p"
    and "fst (read_loop c \<lparr>rest = content p, fault = None, requests = 0, room = memory p\<rparr>
           blake2b_new) = Inl e"
    and "\<forall>m. e \<noteq> OSError m"
  shows "snd (calculate_blake2b p v c) = Inl e"
  using assms
  by (cases e)
     (auto simp: calculate_blake2b_def readable_def stat_succeeds_def stat_size_def open_rb_def
           split: sum.splits prod.splits)

lemma calculate_blake2b_sum_readable:
  assumes "readable p" and "served p DEFAULT_BUFFER_SIZE"
  shows "calculate_blake2b_sum p = Inr (blake2b_hex (content p))"
  using assms
    read_loop_positive [of "\<lparr>rest = content p, fault = None, requests = 0, room = memory p\<rparr>"
      DEFAULT_BUFFER_SIZE "[]"]
  by (simp add: calculate_blake2b_sum_def readable_def open_rb_def DEFAULT_BUFFER_SIZE_def
        served_def fed_Nil hexdigest_fed hexdigest_new)

lemma readable_iso_file: "readable (iso_file p bs)"
  by (simp add: readable_def stat_succeeds_def iso_file_def)

lemma content_iso_file: "content (iso_file p bs) = bs"
  by (simp add: iso_file_def)

lemma memory_iso_file: "memory (iso_file p bs) = 1073741824"
  by (simp add: iso_file_def)

lemma served_iso_file: "0 \<le> c \<Longrightarrow> c \<le> 1073741824 \<Longrightarrow> served (iso_file p bs) c"
  by (simp add: served_def iso_file_def)

lemma calculate_blake2b_positive:
  "readable p \<Longrightarrow> 0 < c \<Longrightarrow> served p c \<Longrightarrow>
   snd (calculate_blake2b p v c) = Inr (Some (blake2b_hex (content p)))"
  using calculate_blake2b_readable [of p c "fed (content p)" v]
    read_loop_positive [of "\<lparr>rest = content p, fault = None, requests = 0, room = memory p\<rparr>" c "[]"]
  by (simp add: served_def fed_Nil hexdigest_fed hexdigest_new)

lemma calculate_blake2b_zero:
  "readable p \<Longrightarrow> snd (calculate_blake2b p v 0) = Inr (Some (blake2b_hex []))"
  using calculate_blake2b_readable [of p 0 "fed []" v]
    read_loop_zero [of "\<lparr>rest = content p, fault = None, requests = 0, room = memory p\<rparr>" blake2b_new]
  by (simp add: fed_Nil hexdigest_fed hexdigest_new)


lemma calculate_blake2b_overflow:
  "readable p \<Longrightarrow> c < - (2 ^ 63) \<or> 2 ^ 63 \<le> c \<Longrightarrow>
   snd (calculate_blake2b p v c) = Inl (OverflowError index_overflow)"
  by (rule calculate_blake2b_raises) (simp_all add: read_loop_overflow)


lemma calculate_blake2b_memory:
  "readable p \<Longrightarrow> 0 < c \<Longrightarrow> c < 2 ^ 63 - 33 \<Longrightarrow> int (memory p) < c \<Longrightarrow>
   snd (calculate_blake2b p v c) = Inl MemoryError"
  by (rule calculate_blake2b_raises) (simp_all add: read_loop_memory)


lemma calculate_blake2b_sum4_nonzero:
  "c \<noteq> 0 \<Longrightarrow> calculate_blake2b_sum4 p v c = calculate_blake2b p v c"
  by (simp add: calculate_blake2b_sum4_def calculate_blake2b_def split: sum.splits exn.splits)

lemma calculate_blake2b_sum4_zero:
  "readable p \<Longrightarrow>
   snd (calculate_blake2b_sum4 p v 0) = Inl (ZeroDivisionError ''integer division or modulo by zero'')"
  by (auto simp: calculate_blake2b_sum4_def readable_def stat_succeeds_def stat_size_def open_rb_def
           split: sum.splits prod.splits)

lemma faulty_file_read_loop:
  "fst (read_loop 2
     \<lparr>rest = content faulty_file, fault = read_fault faulty_file, requests = 0,
      room = memory faulty_file\<rparr> blake2b_new)
     = Inl (OSError ''[Errno 5] Input/output error'')"
  by (simp add: read_loop.simps read_def faulty_def faulty_file_def)


section \<open>The scan: selection, interleavings, tasks and runs\<close>

text \<open>The list comprehension and the selection.\<close>

lemma files_of_selection: "files_of es ext = Inr files \<Longrightarrow> files = matching_files es ext"
  by (induction es arbitrary: files)
     (auto simp: matching_files_def split: sum.splits if_splits)

lemma files_of_returns:
  "\<forall>f \<in> set es. \<exists>b. is_file f = Inr b \<Longrightarrow> files_of es ext = Inr (matching_files es ext)"
  by (induction es) (auto simp: matching_files_def)

lemma files_of_raises:
  "files_of es ext = Inl e \<Longrightarrow> \<exists>f \<in> set es. is_file f = Inl e"
  by (induction es) (auto split: sum.splits)

lemma is_file_raises_OSError: "is_file f = Inl e \<Longrightarrow> \<exists>m. e = OSError m"
  by (auto simp: is_file_def split: sum.splits)

lemma append_in_shuffles: "xs @ ys \<in> shuffles xs ys"
  by (induction xs) (simp_all add: Cons_in_shuffles_leftI)

lemma interleaved_concat: "interleaved ls (concat ls)"
  by (induction ls) (auto intro: interleaved.intros append_in_shuffles)




lemma as_completed_in_order: "as_completed pending pending"
proof (induction pending)
  case Nil
  show ?case by (rule as_completed_Nil)
next
  case (Cons x pending)
  have "as_completed (x # pending) ((x # pending) ! 0 # pending)"
    by (rule as_completed_Cons) (simp_all add: Cons)
  then show ?case by simp
qed


lemma map_snd_futures:
  "map snd (futures files v c) = map (\<lambda>file. snd (process_file file v c)) files"
  by (simp add: futures_def)







lemma iterdir_is_dir: "iterdir fs d = Inr es \<Longrightarrow> is_dir fs d = Inr True"
  by (auto simp: iterdir_def is_dir_def split: dir_state.splits sum.splits)



lemma collect_bound:
  "collect rs m = Inr n \<Longrightarrow> m \<le> n \<and> n \<le> m + length rs"
  by (induction rs m rule: collect.induct) (auto split: if_splits)









lemma scan_no_match:
  assumes "iterdir fs d = Inr es" and "files_of es ext = Inr []"
  shows "check_blake2_sums fs d v ext c log r \<longleftrightarrow> log = [No_files ext d] \<and> r = Inr ()"
proof
  assume "check_blake2_sums fs d v ext c log r"
  then show "log = [No_files ext d] \<and> r = Inr ()"
    using assms iterdir_is_dir [OF assms(1)]
    by (cases rule: check_blake2_sums.cases) simp_all
next
  assume "log = [No_files ext d] \<and> r = Inr ()"
  with scan_no_files [OF iterdir_is_dir [OF assms(1)] assms]
  show "check_blake2_sums fs d v ext c log r"
    by simp
qed

lemma main_iff:
  "main fs args log status \<longleftrightarrow>
     (\<exists>l r. check_blake2_sums fs (directory_of args) (verbose_flag args) (ext_of args)
              (chunk_size_of args) l r \<and>
            log = (if verbose_flag args then [Verbose_enabled] else []) @ l \<and>
            status = (case r of Inl e \<Rightarrow> 1 | Inr u \<Rightarrow> 0))"
  by (auto simp: main.simps)


section \<open>The examples\<close>

lemmas lower_eval = lower_def lower_char_def char_of_def bit_Suc_0_iff

lemma lower_char_idem: "lower_char (lower_char c) = lower_char c"
  by (auto simp: lower_char_def of_char_of)

lemma lower_idem: "lower (lower s) = lower s"
  by (simp add: lower_def lower_char_idem)

lemma lower_latin1:
  "lower [CHR 0xC9, CHR ''.'', CHR 0xC9, CHR ''S'', CHR ''O''] =
     [CHR 0xE9, CHR ''.'', CHR 0xE9, CHR ''s'', CHR ''o'']"
  "lower [CHR 0xD7, CHR 0xDF, CHR 0xFF, CHR ''@'', CHR ''['', CHR ''z''] =
     [CHR 0xD7, CHR 0xDF, CHR 0xFF, CHR ''@'', CHR ''['', CHR ''z'']"
  by (simp_all add: lower_eval)

lemma str_nat_examples: "str_nat 0 = ''0''" "str_nat 2 = ''2''" "str_nat 120 = ''120''"
  by (simp_all add: str_nat.simps digit_char_def)

lemma example_listing:
  "iterdir example_fs ''d'' =
     Inr [iso_file ''d/C.ISO'' [0x68, 0x69], denied_file, iso_file ''d/notes.txt'' [0x68, 0x69]]"
  "iterdir example_fs ''e'' = Inr [iso_file ''e/notes.txt'' [0x68, 0x69]]"
  "is_dir example_fs ''x'' = Inr False"
  "iterdir example_fs ''v'' = Inr [iso_file ''v/a.iso'' [0x68, 0x69], vanished_file]"
  "iterdir example_fs ''p'' = Inr [hidden_file]"
  "is_dir example_fs ''q/x'' = Inl (OSError ''[Errno 13] Permission denied'')"
  by (simp_all add: iterdir_def is_dir_def example_fs_def)

lemma example_suffixes:
  "lower (suffix (iso_file ''d/C.ISO'' bs)) = ''.iso''"
  "lower (suffix denied_file) = ''.iso''"
  "lower (suffix (iso_file ''d/notes.txt'' bs)) = ''.txt''"
  "lower (suffix (iso_file ''e/notes.txt'' bs)) = ''.txt''"
  "lower (suffix (iso_file ''v/a.iso'' bs)) = ''.iso''"
  "lower (suffix vanished_file) = ''.iso''"
  by (simp_all add: suffix_def name_def name_of_def suffix_of_def rfind_dot_def lower_eval
        iso_file_def denied_file_def vanished_file_def)

lemma example_is_file:
  "is_file (iso_file p bs) = Inr True" "is_file denied_file = Inr True"
  "is_file vanished_file = Inr True"
  "is_file hidden_file = Inl (OSError ''[Errno 13] Permission denied'')"
  by (simp_all add: is_file_def iso_file_def denied_file_def vanished_file_def hidden_file_def)



lemma example_matching:
  "matching_files [iso_file ''d/C.ISO'' [0x68, 0x69], denied_file,
                   iso_file ''d/notes.txt'' [0x68, 0x69]] ''.iso'' =
     [iso_file ''d/C.ISO'' [0x68, 0x69], denied_file]"
  "matching_files [iso_file ''e/notes.txt'' [0x68, 0x69]] ''.iso'' = []"
  "matching_files [iso_file ''d/C.ISO'' [0x68, 0x69], denied_file,
                   iso_file ''d/notes.txt'' [0x68, 0x69]] ''.ISO'' = []"
  "matching_files [iso_file ''v/a.iso'' [0x68, 0x69], vanished_file] ''.iso'' =
     [iso_file ''v/a.iso'' [0x68, 0x69], vanished_file]"
  by (simp_all add: matching_files_def example_suffixes example_is_file)

lemma example_files:
  "files_of [iso_file ''d/C.ISO'' [0x68, 0x69], denied_file,
             iso_file ''d/notes.txt'' [0x68, 0x69]] ''.iso'' =
     Inr [iso_file ''d/C.ISO'' [0x68, 0x69], denied_file]"
  "files_of [iso_file ''e/notes.txt'' [0x68, 0x69]] ''.iso'' = Inr []"
  "files_of [iso_file ''d/C.ISO'' [0x68, 0x69], denied_file,
             iso_file ''d/notes.txt'' [0x68, 0x69]] ''.ISO'' = Inr []"
  "files_of [iso_file ''v/a.iso'' [0x68, 0x69], vanished_file] ''.iso'' =
     Inr [iso_file ''v/a.iso'' [0x68, 0x69], vanished_file]"
  "files_of [hidden_file] ''.iso'' = Inl (OSError ''[Errno 13] Permission denied'')"
  by (simp_all add: example_suffixes example_is_file)





text \<open>
  A file that has gone when its task calls \<open>stat()\<close>: the call is made before the
  \<open>try\<close>, so the \<open>OSError\<close> leaves \<open>calculate_blake2b\<close> and \<open>process_file\<close> with
  nothing logged, and \<open>future.result()\<close> raises it in the scan. The other file of the
  directory is hashed and reported, and the scan ends without a summary.
\<close>

lemma stat_failure_leaves_task:
  "stat_result p = Inl e \<Longrightarrow> process_file p v c = ([], Inl (OSError e))"
  by (simp add: process_file_def calculate_blake2b_def stat_size_def)

lemma stat_failure_aborts_scan:
  "check_blake2_sums example_fs ''v'' False ''.iso'' 8192
     [Found_files 2 ''.iso'' ''v'',
      Processing_file ''a.iso'' 2, Completed ''a.iso'' 2,
      Checksum_line ''a.iso'' (blake2b_hex [0x68, 0x69])]
     (Inl (OSError ''[Errno 2] No such file or directory''))"
proof -
  let ?files = "[iso_file ''v/a.iso'' [0x68, 0x69], vanished_file]"
  have ok: "process_file (iso_file ''v/a.iso'' [0x68, 0x69]) False 8192 =
     ([Processing_file ''a.iso'' 2, Completed ''a.iso'' 2,
       Checksum_line ''a.iso'' (blake2b_hex [0x68, 0x69])], Inr (Some (blake2b_hex [0x68, 0x69])))"
  proof -
    have "calculate_blake2b (iso_file ''v/a.iso'' [0x68, 0x69]) False 8192 =
       ([Processing_file ''a.iso'' 2, Completed ''a.iso'' 2], Inr (Some (blake2b_hex [0x68, 0x69])))"
      using calculate_blake2b_readable [OF readable_iso_file, of 8192 "''v/a.iso''" "[0x68, 0x69]"
          "fed [0x68, 0x69]" False]
        read_loop_positive [of "\<lparr>rest = [0x68, 0x69], fault = None, requests = 0,
          room = 1073741824\<rparr>" 8192 "[]"]
      by (simp add: content_iso_file memory_iso_file fed_Nil hexdigest_fed hexdigest_new)
         (simp add: iso_file_def name_def name_of_def)
    then show ?thesis
      using truthy_blake2b_hex [of "[0x68, 0x69]"]
      by (simp add: process_file_def iso_file_def name_def name_of_def del: truthy.simps(2))
  qed
  have gone: "process_file vanished_file False 8192 =
                ([], Inl (OSError ''[Errno 2] No such file or directory''))"
    by (simp add: stat_failure_leaves_task vanished_file_def)
  have il: "interleaved (map (\<lambda>file. fst (process_file file False 8192)) ?files)
              [Processing_file ''a.iso'' 2, Completed ''a.iso'' 2,
               Checksum_line ''a.iso'' (blake2b_hex [0x68, 0x69])]"
    using interleaved_concat [of "map (\<lambda>file. fst (process_file file False 8192)) ?files"]
    by (simp add: ok gone)
  have col: "collect (map snd (futures ?files False 8192)) 0 =
               Inl (OSError ''[Errno 2] No such file or directory'')"
    using truthy_blake2b_hex [of "[0x68, 0x69]"]
    by (simp add: map_snd_futures ok gone del: truthy.simps(2))
  from scan_aborted [OF iterdir_is_dir [OF example_listing(4)] example_listing(4)
      example_files(4) _ il as_completed_in_order col]
  show ?thesis by (simp add: numeral_2_eq_2)
qed

text \<open>
  A directory that can be listed and not searched: \<open>is_file()\<close> raises on its first
  entry, the exception leaves the scan before anything is logged, and the process exits
  with status 1. The same holds when \<open>is_dir()\<close> raises on the directory path.
\<close>

lemma unsearchable_directory_aborts_scan:
  "check_blake2_sums example_fs ''p'' False ''.iso'' 8192 []
     (Inl (OSError ''[Errno 13] Permission denied''))"
  "check_blake2_sums example_fs ''q/x'' False ''.iso'' 8192 []
     (Inl (OSError ''[Errno 13] Permission denied''))"
  using scan_is_file_raises [OF iterdir_is_dir [OF example_listing(5)] example_listing(5)
      example_files(5), of False 8192]
    scan_is_dir_raises [OF example_listing(6), of False "''.iso''" 8192]
  by simp_all

text \<open>
  Chunk sizes that \<open>read\<close> does not serve, on the readable file \<open>C.ISO\<close>: \<open>2^63\<close> does
  not fit a C \<open>ssize_t\<close>, and \<open>2^40\<close> bytes exceed the memory of the example. The
  exception is not an \<open>OSError\<close>, so it leaves \<open>calculate_blake2b\<close> and the task.
\<close>

lemma example_tasks_huge:
  "process_file (iso_file ''d/C.ISO'' [0x68, 0x69]) False 9223372036854775808 =
     ([Processing_file ''C.ISO'' 2], Inl (OverflowError index_overflow))"
  "process_file (iso_file ''d/C.ISO'' [0x68, 0x69]) False 1099511627776 =
     ([Processing_file ''C.ISO'' 2], Inl MemoryError)"
  "process_file denied_file False 9223372036854775808 =
     ([Processing_file ''a.iso'' 3,
       Error_reading ''d/a.iso'' ''[Errno 13] Permission denied''], Inr None)"
proof -
  have "fst (read_loop 9223372036854775808 \<lparr>rest = [0x68, 0x69], fault = None, requests = 0,
          room = 1073741824\<rparr> blake2b_new) = Inl (OverflowError index_overflow)"
    by (simp add: read_loop_overflow)
  then show "process_file (iso_file ''d/C.ISO'' [0x68, 0x69]) False 9223372036854775808 =
     ([Processing_file ''C.ISO'' 2], Inl (OverflowError index_overflow))"
    by (simp add: process_file_def calculate_blake2b_def stat_size_def open_rb_def
          iso_file_def name_def name_of_def)
  have "fst (read_loop 1099511627776 \<lparr>rest = [0x68, 0x69], fault = None, requests = 0,
          room = 1073741824\<rparr> blake2b_new) = Inl MemoryError"
    by (simp add: read_loop_memory)
  then show "process_file (iso_file ''d/C.ISO'' [0x68, 0x69]) False 1099511627776 =
     ([Processing_file ''C.ISO'' 2], Inl MemoryError)"
    by (simp add: process_file_def calculate_blake2b_def stat_size_def open_rb_def
          iso_file_def name_def name_of_def)
  show "process_file denied_file False 9223372036854775808 =
     ([Processing_file ''a.iso'' 3,
       Error_reading ''d/a.iso'' ''[Errno 13] Permission denied''], Inr None)"
    by (simp add: process_file_def calculate_blake2b_def stat_size_def open_rb_def
          denied_file_def name_def name_of_def)
qed

lemma example_run_huge:
  "check_blake2_sums example_fs ''d'' False ''.iso'' 9223372036854775808
     [Found_files 2 ''.iso'' ''d'',
      Processing_file ''C.ISO'' 2,
      Processing_file ''a.iso'' 3, Error_reading ''d/a.iso'' ''[Errno 13] Permission denied'']
     (Inl (OverflowError index_overflow))"
proof -
  let ?files = "[iso_file ''d/C.ISO'' [0x68, 0x69], denied_file]"
  have il: "interleaved
              (map (\<lambda>file. fst (process_file file False 9223372036854775808)) ?files)
              [Processing_file ''C.ISO'' 2,
               Processing_file ''a.iso'' 3, Error_reading ''d/a.iso'' ''[Errno 13] Permission denied'']"
    using interleaved_concat
      [of "map (\<lambda>file. fst (process_file file False 9223372036854775808)) ?files"]
    by (simp add: example_tasks_huge)
  have col: "collect (map snd (futures ?files False 9223372036854775808)) 0 =
               Inl (OverflowError index_overflow)"
    by (simp add: map_snd_futures example_tasks_huge)
  from scan_aborted [OF iterdir_is_dir [OF example_listing(1)] example_listing(1)
      example_files(1) _ il as_completed_in_order col]
  show ?thesis by (simp add: numeral_2_eq_2)
qed


section \<open>The claims\<close>

text \<open>
  C1. For every readable file for which a read of the default buffer size is served,
  \<open>calculate_blake2b\<close> called with its default arguments returns the hexadecimal
  BLAKE2b-512 digest of the content of the file, as RFC 7693 defines it, and so does
  the first variant of \<open>blake2_sum.py\<close>; with a positive chunk size that is served the
  result is the same digest. For a file of size 0 the result is the known digest of the
  empty input, and for the content \<open>"abc"\<close> it is the test vector of the RFC.
\<close>

theorem calculate_blake2b_digest:
  assumes "readable p" and "served p DEFAULT_BUFFER_SIZE"
  shows "snd (calculate_blake2b_call p None None) = Inr (Some (hex (BLAKE2b_512 (content p)))) \<and>
         calculate_blake2b_sum p = Inr (hex (BLAKE2b_512 (content p))) \<and>
         (0 < c \<and> served p c \<longrightarrow>
            snd (calculate_blake2b p v c) = Inr (Some (hex (BLAKE2b_512 (content p))))) \<and>
         snd (calculate_blake2b_call (p\<lparr>content := []\<rparr>) None None) =
           Inr (Some ''786a02f742015903c6c6fd852552d272912f4740e15847618a86e217f71f5419d25e1031afee585313896444934eb04b903a685b1448b755d56f701afe9be2ce'') \<and>
         snd (calculate_blake2b_call (p\<lparr>content := [0x61, 0x62, 0x63]\<rparr>) None None) =
           Inr (Some ''ba80a53f981c4d0d6a2797b69f12f6e94c212f14685ac4b74b12bb6fdbffa2d17d87c5392aab792dc252d5de4533cc9518d38aa8dbf1925ab92386edd4009923'')"
proof -
  have pos: "(0::int) < DEFAULT_BUFFER_SIZE"
    by (simp add: DEFAULT_BUFFER_SIZE_def)
  have default: "snd (calculate_blake2b_call q None None) = Inr (Some (blake2b_hex (content q)))"
    if "readable q" "served q DEFAULT_BUFFER_SIZE" for q
    using calculate_blake2b_positive [OF that(1) pos that(2), of False]
    by (simp add: calculate_blake2b_call_def)
  have r0: "readable (p\<lparr>content := []\<rparr>)" "served (p\<lparr>content := []\<rparr>) DEFAULT_BUFFER_SIZE"
    and r3: "readable (p\<lparr>content := [0x61, 0x62, 0x63]\<rparr>)"
      "served (p\<lparr>content := [0x61, 0x62, 0x63]\<rparr>) DEFAULT_BUFFER_SIZE"
    using assms by (simp_all add: readable_def stat_succeeds_def served_def)
  have any: "snd (calculate_blake2b p v c) = Inr (Some (blake2b_hex (content p)))"
    if "0 < c" "served p c"
    by (rule calculate_blake2b_positive [OF assms(1) that])
  have empty: "snd (calculate_blake2b_call (p\<lparr>content := []\<rparr>) None None) =
      Inr (Some (blake2b_hex []))"
    using default [OF r0] by simp
  have abc: "snd (calculate_blake2b_call (p\<lparr>content := [0x61, 0x62, 0x63]\<rparr>) None None) =
      Inr (Some (blake2b_hex [0x61, 0x62, 0x63]))"
    using default [OF r3] by simp
  from default [OF assms] calculate_blake2b_sum_readable [OF assms] any
    empty [unfolded blake2b_hex_empty] abc [unfolded blake2b_hex_abc]
  show ?thesis
    by (simp add: blake2b_hex_def)
qed

theorem calculate_blake2b_digest_witness:
  "readable (iso_file ''d/a.iso'' []) \<and> served (iso_file ''d/a.iso'' []) DEFAULT_BUFFER_SIZE \<and>
   snd (calculate_blake2b_call (iso_file ''d/a.iso'' []) None None) =
     Inr (Some ''786a02f742015903c6c6fd852552d272912f4740e15847618a86e217f71f5419d25e1031afee585313896444934eb04b903a685b1448b755d56f701afe9be2ce'') \<and>
   calculate_blake2b_sum (iso_file ''d/a.iso'' []) = Inr (hex (BLAKE2b_512 []))"
proof -
  have r: "readable (iso_file ''d/a.iso'' [])"
    by (rule readable_iso_file)
  have s: "served (iso_file ''d/a.iso'' []) DEFAULT_BUFFER_SIZE"
    by (simp add: served_iso_file DEFAULT_BUFFER_SIZE_def)
  have same: "(iso_file ''d/a.iso'' [])\<lparr>content := []\<rparr> = iso_file ''d/a.iso'' []"
    by (simp add: iso_file_def)
  note digest = calculate_blake2b_digest [OF r s, of 1 False, unfolded same content_iso_file]
  from digest have "snd (calculate_blake2b_call (iso_file ''d/a.iso'' []) None None) =
     Inr (Some ''786a02f742015903c6c6fd852552d272912f4740e15847618a86e217f71f5419d25e1031afee585313896444934eb04b903a685b1448b755d56f701afe9be2ce'')"
    by (elim conjE)
  moreover from digest have "calculate_blake2b_sum (iso_file ''d/a.iso'' []) = Inr (hex (BLAKE2b_512 []))"
    by (elim conjE)
  ultimately show ?thesis
    using r s by (simp only: simp_thms)
qed


text \<open>
  C2, as stated, fails: not every positive chunk size gives the digest. \<open>read\<close> refuses
  a size of \<open>2^63\<close> with \<open>OverflowError\<close> and cannot allocate \<open>2^40\<close> bytes in a memory
  of 1 GiB; \<open>except (OSError, IOError)\<close> catches neither exception, so the call raises
  where the default chunk size returns the digest, in \<open>blake2b_1.py\<close> and in
  \<open>blake2_sum4.py\<close>.
\<close>

theorem chunk_size_counterexample:
  "(0::int) < 8192 \<and> (0::int) < 9223372036854775808 \<and> (0::int) < 1099511627776 \<and>
   readable (iso_file ''d/C.ISO'' [0x68, 0x69]) \<and>
   snd (calculate_blake2b (iso_file ''d/C.ISO'' [0x68, 0x69]) False 8192) =
     Inr (Some (blake2b_hex [0x68, 0x69])) \<and>
   snd (calculate_blake2b (iso_file ''d/C.ISO'' [0x68, 0x69]) False 9223372036854775808) =
     Inl (OverflowError index_overflow) \<and>
   snd (calculate_blake2b_sum4 (iso_file ''d/C.ISO'' [0x68, 0x69]) False 9223372036854775808) =
     Inl (OverflowError index_overflow) \<and>
   snd (calculate_blake2b (iso_file ''d/C.ISO'' [0x68, 0x69]) False 1099511627776) =
     Inl MemoryError"
proof -
  let ?p = "iso_file ''d/C.ISO'' [0x68, 0x69]"
  have r: "readable ?p"
    by (rule readable_iso_file)
  have "snd (calculate_blake2b ?p False 8192) = Inr (Some (blake2b_hex [0x68, 0x69]))"
    using calculate_blake2b_positive [OF r, of 8192 False]
    by (simp add: served_iso_file content_iso_file)
  moreover have "snd (calculate_blake2b ?p False 9223372036854775808) =
      Inl (OverflowError index_overflow)"
    using calculate_blake2b_overflow [OF r, of 9223372036854775808 False] by simp
  moreover have "snd (calculate_blake2b_sum4 ?p False 9223372036854775808) =
      Inl (OverflowError index_overflow)"
    using calculate_blake2b_overflow [OF r, of 9223372036854775808 False]
    by (simp add: calculate_blake2b_sum4_nonzero)
  moreover have "snd (calculate_blake2b ?p False 1099511627776) = Inl MemoryError"
    using calculate_blake2b_memory [OF r, of 1099511627776 False]
    by (simp add: memory_iso_file)
  ultimately show ?thesis
    using r by simp
qed

text \<open>
  C2, amended. For every readable file, every positive chunk size that is served gives
  the digest of the content, in \<open>blake2b_1.py\<close> and in \<open>blake2_sum4.py\<close>, so any two
  such chunk sizes give the same result: for example one byte, the default buffer size
  and a size larger than the file, when the memory allows them.
\<close>

theorem chunk_size_independence:
  assumes "readable p" and "0 < c1" and "served p c1" and "0 < c2" and "served p c2"
  shows "snd (calculate_blake2b p v c1) = Inr (Some (blake2b_hex (content p))) \<and>
         snd (calculate_blake2b p v c2) = Inr (Some (blake2b_hex (content p))) \<and>
         snd (calculate_blake2b_sum4 p v c1) = Inr (Some (blake2b_hex (content p))) \<and>
         snd (calculate_blake2b_sum4 p v c2) = Inr (Some (blake2b_hex (content p))) \<and>
         snd (calculate_blake2b p v c1) = snd (calculate_blake2b p v c2) \<and>
         snd (calculate_blake2b_sum4 p v c1) = snd (calculate_blake2b_sum4 p v c2)"
proof -
  have one: "snd (calculate_blake2b p v c1) = Inr (Some (blake2b_hex (content p)))"
    by (rule calculate_blake2b_positive [OF assms(1,2,3)])
  have two: "snd (calculate_blake2b p v c2) = Inr (Some (blake2b_hex (content p)))"
    by (rule calculate_blake2b_positive [OF assms(1,4,5)])
  have "calculate_blake2b_sum4 p v c1 = calculate_blake2b p v c1"
    "calculate_blake2b_sum4 p v c2 = calculate_blake2b p v c2"
    using assms(2,4) by (simp_all add: calculate_blake2b_sum4_nonzero)
  with one two show ?thesis
    by simp
qed

theorem chunk_size_independence_witness:
  "readable (iso_file ''d/a.iso'' [0x68, 0x69]) \<and>
   (0::int) < 1 \<and> served (iso_file ''d/a.iso'' [0x68, 0x69]) 1 \<and>
   (0::int) < 8192 \<and> served (iso_file ''d/a.iso'' [0x68, 0x69]) 8192 \<and>
   (0::int) < 3 \<and> served (iso_file ''d/a.iso'' [0x68, 0x69]) 3 \<and>
   snd (calculate_blake2b (iso_file ''d/a.iso'' [0x68, 0x69]) False 1) =
     Inr (Some (blake2b_hex [0x68, 0x69])) \<and>
   snd (calculate_blake2b (iso_file ''d/a.iso'' [0x68, 0x69]) False 8192) =
     Inr (Some (blake2b_hex [0x68, 0x69])) \<and>
   snd (calculate_blake2b (iso_file ''d/a.iso'' [0x68, 0x69]) False 3) =
     Inr (Some (blake2b_hex [0x68, 0x69]))"
proof -
  let ?p = "iso_file ''d/a.iso'' [0x68, 0x69]"
  have r: "readable ?p"
    by (rule readable_iso_file)
  have s: "served ?p 1" "served ?p 8192" "served ?p 3"
    by (simp_all add: served_iso_file)
  from chunk_size_independence [OF r _ s(1) _ s(2), of False]
    chunk_size_independence [OF r _ s(3) _ s(2), of False] r s
  show ?thesis
    by (simp add: content_iso_file)
qed




text \<open>
  C4. When \<open>stat()\<close> has succeeded and \<open>open\<close> or a read raises \<open>OSError\<close>,
  \<open>calculate_blake2b\<close> returns \<open>None\<close> (no digest, no exception) and has logged, at
  level ERROR, one line with the path and the text of the error. The failing read was
  the last request made to the file: nothing is tried again. The first variant of
  \<open>blake2_sum.py\<close> returns the text of the error after \<open>Error: \<close> in the same case.
\<close>

theorem io_failure_contained:
  assumes "stat_result p = Inr sz"
    and "open_result p = Some e \<or>
         open_result p = None \<and>
         fst (read_loop c
           \<lparr>rest = content p, fault = read_fault p, requests = 0, room = memory p\<rparr> blake2b_new)
           = Inl (OSError e)"
  shows "calculate_blake2b p v c =
           ([Processing_file (name p) sz, Error_reading (path_str p) e], Inr None) \<and>
         level_of (Error_reading (path_str p) e) = ERROR \<and>
         message (Error_reading (path_str p) e) =
           '' Error reading file '' @ path_str p @ '': '' @ e \<and>
         (open_result p = None \<longrightarrow>
            (\<exists>k. read_fault p = Some (k, e) \<and>
               requests (snd (read_loop c
                 \<lparr>rest = content p, fault = read_fault p, requests = 0, room = memory p\<rparr>
                 blake2b_new)) = k + 1)) \<and>
         (open_result p = Some e \<longrightarrow> calculate_blake2b_sum p = Inr (''Error: '' @ e))"
proof -
  let ?f = "\<lparr>rest = content p, fault = read_fault p, requests = 0, room = memory p\<rparr>"
  have result: "calculate_blake2b p v c =
           ([Processing_file (name p) sz, Error_reading (path_str p) e], Inr None)"
    using assms by (auto simp: calculate_blake2b_def stat_size_def open_rb_def)
  have retry: "\<exists>k. read_fault p = Some (k, e) \<and> requests (snd (read_loop c ?f blake2b_new)) = k + 1"
    if "open_result p = None"
  proof -
    from that assms(2) have err: "fst (read_loop c ?f blake2b_new) = Inl (OSError e)"
      by simp
    then obtain k m where km: "read_fault p = Some (k, m)"
      using read_loop_no_fault_OSError [of ?f c blake2b_new e] by (cases "read_fault p") auto
    with read_loop_OSError [OF err, of k m] show ?thesis
      by simp
  qed
  have "calculate_blake2b_sum p = Inr (''Error: '' @ e)" if "open_result p = Some e"
    using that by (simp add: calculate_blake2b_sum_def open_rb_def)
  with result retry show ?thesis
    by simp
qed

theorem io_failure_contained_witness:
  "stat_result denied_file = Inr 3 \<and>
   open_result denied_file = Some ''[Errno 13] Permission denied'' \<and>
   calculate_blake2b denied_file False 8192 =
     ([Processing_file ''a.iso'' 3,
       Error_reading ''d/a.iso'' ''[Errno 13] Permission denied''], Inr None) \<and>
   stat_result faulty_file = Inr 3 \<and> open_result faulty_file = None \<and>
   fst (read_loop 2
     \<lparr>rest = content faulty_file, fault = read_fault faulty_file, requests = 0,
      room = memory faulty_file\<rparr> blake2b_new) = Inl (OSError ''[Errno 5] Input/output error'') \<and>
   calculate_blake2b faulty_file False 2 =
     ([Processing_file ''b.iso'' 3,
       Error_reading ''d/b.iso'' ''[Errno 5] Input/output error''], Inr None)"
proof -
  have d: "stat_result denied_file = Inr 3"
    "open_result denied_file = Some ''[Errno 13] Permission denied''"
    "name denied_file = ''a.iso''" "path_str denied_file = ''d/a.iso''"
    by (simp_all add: denied_file_def name_def name_of_def)
  have f: "stat_result faulty_file = Inr 3" "open_result faulty_file = None"
    "name faulty_file = ''b.iso''" "path_str faulty_file = ''d/b.iso''"
    by (simp_all add: faulty_file_def name_def name_of_def)
  show ?thesis
    using io_failure_contained [of denied_file 3 "''[Errno 13] Permission denied''" 8192 False]
      io_failure_contained [of faulty_file 3 "''[Errno 5] Input/output error''" 2 False]
      faulty_file_read_loop
    by (simp add: d f)
qed




text \<open>
  C6. The comparison \<open>f.suffix.lower() == ext\<close> lower-cases the suffix of the file
  and not the target: a target extension with an upper-case letter selects no file at
  all, whatever the directory holds. The list comprehension of line 59 then returns the
  empty list, unless an \<open>is_file()\<close> raises.
\<close>

theorem extension_case:
  "lower ext \<noteq> ext \<Longrightarrow>
   matching_files es ext = [] \<and>
   (files_of es ext = Inr [] \<or> (\<exists>e. files_of es ext = Inl (OSError e)))"
proof -
  assume up: "lower ext \<noteq> ext"
  have none: "matching_files es ext = []"
    using up lower_idem [of "suffix f" for f]
    by (auto simp: matching_files_def filter_empty_conv)
  have "files_of es ext = Inr [] \<or> (\<exists>e. files_of es ext = Inl (OSError e))"
  proof (cases "files_of es ext")
    case (Inl e)
    from files_of_raises [OF Inl] is_file_raises_OSError obtain m where "e = OSError m"
      by blast
    with Inl show ?thesis by simp
  next
    case (Inr files)
    from files_of_selection [OF Inr] none Inr show ?thesis by simp
  qed
  with none show ?thesis
    by simp
qed

theorem extension_case_witness:
  "lower ''.ISO'' \<noteq> ''.ISO'' \<and>
   matching_files [iso_file ''d/C.ISO'' [0x68, 0x69], denied_file,
                   iso_file ''d/notes.txt'' [0x68, 0x69]] ''.ISO'' = [] \<and>
   matching_files [iso_file ''d/C.ISO'' [0x68, 0x69], denied_file,
                   iso_file ''d/notes.txt'' [0x68, 0x69]] ''.iso'' =
     [iso_file ''d/C.ISO'' [0x68, 0x69], denied_file] \<and>
   files_of [iso_file ''d/C.ISO'' [0x68, 0x69], denied_file,
             iso_file ''d/notes.txt'' [0x68, 0x69]] ''.ISO'' = Inr []"
  using extension_case [of "''.ISO''" "[iso_file ''d/C.ISO'' [0x68, 0x69], denied_file,
                   iso_file ''d/notes.txt'' [0x68, 0x69]]"]
  by (simp add: example_matching example_files del: files_of.simps) (simp add: lower_eval)




text \<open>
  C8, as stated, fails: in a directory without a matching file the scan returns after
  its warning, and no summary line is logged.
\<close>

theorem no_match_summary_counterexample:
  "main example_fs
     \<lparr>directory_arg = Some ''e'', verbose_flag = False, ext_arg = None, chunk_size_arg = None\<rparr>
     [No_files ''.iso'' ''e''] 0 \<and>
   filter is_summary [No_files ''.iso'' ''e''] = []"
  using main_run [of example_fs
      "\<lparr>directory_arg = Some ''e'', verbose_flag = False, ext_arg = None, chunk_size_arg = None\<rparr>"
      "[No_files ''.iso'' ''e'']" "Inr ()"]
    scan_no_files [OF iterdir_is_dir [OF example_listing(2)] example_listing(2) example_files(2),
      of False DEFAULT_BUFFER_SIZE]
  by (simp add: directory_of_def ext_of_def chunk_size_of_def)

text \<open>
  C8, amended. For a directory that can be listed, whose entries all answer
  \<open>is_file()\<close> and of which the list comprehension selects no file, the scan logs one
  line at level WARNING and nothing else, no summary line among it, and the process
  exits with status 0.
\<close>

theorem no_match_warning:
  assumes "iterdir fs (directory_of args) = Inr es"
    and "files_of es (ext_of args) = Inr []"
  shows "(main fs args log status \<longleftrightarrow>
            log = (if verbose_flag args then [Verbose_enabled] else [])
                    @ [No_files (ext_of args) (directory_of args)] \<and> status = 0) \<and>
         level_of (No_files (ext_of args) (directory_of args)) = WARNING \<and>
         filter is_summary
           ((if verbose_flag args then [Verbose_enabled] else [])
              @ [No_files (ext_of args) (directory_of args)]) = []"
proof -
  let ?pre = "if verbose_flag args then [Verbose_enabled] else []"
  let ?warning = "No_files (ext_of args) (directory_of args)"
  have scan: "check_blake2_sums fs (directory_of args) (verbose_flag args) (ext_of args)
                (chunk_size_of args) l r \<longleftrightarrow> l = [?warning] \<and> r = Inr ()" for l r
    by (rule scan_no_match [OF assms])
  have run: "main fs args log status \<longleftrightarrow> log = ?pre @ [?warning] \<and> status = 0"
  proof
    assume "main fs args log status"
    then obtain l r where run: "check_blake2_sums fs (directory_of args) (verbose_flag args)
          (ext_of args) (chunk_size_of args) l r"
      and log: "log = ?pre @ l"
      and status: "status = (case r of Inl e \<Rightarrow> 1 | Inr u \<Rightarrow> 0)"
      by (auto simp: main_iff)
    from run have "l = [?warning]" and "r = Inr ()"
      by (simp_all add: scan)
    with log status show "log = ?pre @ [?warning] \<and> status = 0"
      by simp
  next
    assume "log = ?pre @ [?warning] \<and> status = 0"
    moreover have "check_blake2_sums fs (directory_of args) (verbose_flag args)
          (ext_of args) (chunk_size_of args) [?warning] (Inr ())"
      by (simp add: scan)
    ultimately show "main fs args log status"
      by (auto simp: main_iff)
  qed
  have lvl: "level_of ?warning = WARNING"
    by simp
  have none: "filter is_summary (?pre @ [?warning]) = []"
    by simp
  from run lvl none show ?thesis
    by (simp only: simp_thms)
qed

theorem no_match_warning_witness:
  "iterdir example_fs ''e'' = Inr [iso_file ''e/notes.txt'' [0x68, 0x69]] \<and>
   files_of [iso_file ''e/notes.txt'' [0x68, 0x69]] ''.iso'' = Inr [] \<and>
   main example_fs
     \<lparr>directory_arg = Some ''e'', verbose_flag = False, ext_arg = None, chunk_size_arg = None\<rparr>
     [No_files ''.iso'' ''e''] 0"
  using no_match_warning [of example_fs
      "\<lparr>directory_arg = Some ''e'', verbose_flag = False, ext_arg = None, chunk_size_arg = None\<rparr>"
      "[iso_file ''e/notes.txt'' [0x68, 0x69]]" "[No_files ''.iso'' ''e'']" 0]
  by (simp add: directory_of_def ext_of_def example_listing example_files del: files_of.simps)




text \<open>
  C10. For every readable file, \<open>calculate_blake2b\<close> of \<open>blake2b_1.py\<close> with a chunk
  size of 0 returns the digest of the empty input, whatever the content. The variant
  of \<open>blake2_sum4.py\<close> raises \<open>ZeroDivisionError\<close> instead.
\<close>

theorem zero_chunk_size:
  assumes "readable p"
  shows "snd (calculate_blake2b p v 0) =
           Inr (Some ''786a02f742015903c6c6fd852552d272912f4740e15847618a86e217f71f5419d25e1031afee585313896444934eb04b903a685b1448b755d56f701afe9be2ce'') \<and>
         snd (calculate_blake2b_sum4 p v 0) =
           Inl (ZeroDivisionError ''integer division or modulo by zero'')"
  using assms
  by (simp add: calculate_blake2b_zero calculate_blake2b_sum4_zero blake2b_hex_empty)

theorem zero_chunk_size_witness:
  "readable (iso_file ''d/a.iso'' [0x61, 0x62, 0x63]) \<and>
   snd (calculate_blake2b (iso_file ''d/a.iso'' [0x61, 0x62, 0x63]) False 0) =
     Inr (Some ''786a02f742015903c6c6fd852552d272912f4740e15847618a86e217f71f5419d25e1031afee585313896444934eb04b903a685b1448b755d56f701afe9be2ce'') \<and>
   snd (calculate_blake2b_sum4 (iso_file ''d/a.iso'' [0x61, 0x62, 0x63]) False 0) =
     Inl (ZeroDivisionError ''integer division or modulo by zero'')"
  using zero_chunk_size [of "iso_file ''d/a.iso'' [0x61, 0x62, 0x63]" False]
  by (simp add: readable_iso_file)

end
